theory Spec2Isabelle
  imports Complex_Main
begin

section \<open>The raster package: path recorder and replay compositor\<close>

text \<open>
  A shallow embedding of the Go package \<^verbatim>\<open>raster\<close> (the version that records
  entries): the types \<^verbatim>\<open>Operator\<close>, \<^verbatim>\<open>Segment\<close>, \<^verbatim>\<open>Entry\<close> and
  \<^verbatim>\<open>Rasterizer\<close>, the methods \<^verbatim>\<open>Reset\<close>, \<^verbatim>\<open>extend\<close>, \<^verbatim>\<open>MoveTo\<close>,
  \<^verbatim>\<open>LineTo\<close>, \<^verbatim>\<open>CubeTo\<close>, \<^verbatim>\<open>ClosePath\<close> and \<^verbatim>\<open>Render\<close>.

  Numbers. A \<^verbatim>\<open>float64\<close> is NaN, an infinity or a real number, and the comparisons
  \<open><\<close> and \<open>>\<close> are Go's: false as soon as an operand is NaN. The two zeros of IEEE 754
  are one value here (Go compares them equal). What depends on the machine is a parameter
  \<open>env\<close> of the model: the rounding of a \<^verbatim>\<open>float64\<close> sum or difference, the conversion
  \<^verbatim>\<open>float32(x)\<close>, the value of \<^verbatim>\<open>int(f)\<close> when \<open>f\<close> has no \<^verbatim>\<open>int\<close> value (the language
  leaves it to the implementation) and the largest buffer the allocator grants. Go's
  \<^verbatim>\<open>int\<close> is taken to be 64 bits wide: an \<open>int\<close> of HOL with the wrap-around written out.
\<close>

subsection \<open>Numbers\<close>

datatype float = NaN | NegInf | Fin real | PosInf

type_synonym float64 = float
type_synonym float32 = float

text \<open>Go's \<^verbatim>\<open>a < b\<close> on floats; \<^verbatim>\<open>a > b\<close> is \<open>flt b a\<close>, and \<open>fle\<close> is \<^verbatim>\<open>a <= b\<close>.\<close>

fun flt :: "float \<Rightarrow> float \<Rightarrow> bool" where
  "flt NaN b = False"
| "flt a NaN = False"
| "flt a NegInf = False"
| "flt NegInf b = True"
| "flt PosInf b = False"
| "flt (Fin x) PosInf = True"
| "flt (Fin x) (Fin y) = (x < y)"

definition fle :: "float \<Rightarrow> float \<Rightarrow> bool" where
  "fle a b = (a \<noteq> NaN \<and> b \<noteq> NaN \<and> \<not> flt b a)"

record env =
  round64 :: "real \<Rightarrow> float64"
  float32 :: "float64 \<Rightarrow> float32"
  indefinite :: "float64 \<Rightarrow> int"
  max_samples :: int

text \<open>
  \<^verbatim>\<open>a + b\<close> and \<^verbatim>\<open>a - b\<close> in \<^verbatim>\<open>float64\<close>: the rules of IEEE 754 for NaN and the
  infinities, and on two finite operands the exact result rounded by \<open>round64 env\<close>
  (which may give an infinity).
\<close>

fun fadd :: "env \<Rightarrow> float64 \<Rightarrow> float64 \<Rightarrow> float64" where
  "fadd env NaN b = NaN"
| "fadd env a NaN = NaN"
| "fadd env (Fin x) (Fin y) = round64 env (x + y)"
| "fadd env PosInf NegInf = NaN"
| "fadd env NegInf PosInf = NaN"
| "fadd env PosInf b = PosInf"
| "fadd env NegInf b = NegInf"
| "fadd env (Fin x) b = b"

fun fneg :: "float64 \<Rightarrow> float64" where
  "fneg NaN = NaN"
| "fneg NegInf = PosInf"
| "fneg (Fin x) = Fin (- x)"
| "fneg PosInf = NegInf"

definition fsub :: "env \<Rightarrow> float64 \<Rightarrow> float64 \<Rightarrow> float64" where
  "fsub env a b = fadd env a (fneg b)"

text \<open>A 64-bit signed integer: the value of an integer expression after wrap-around.\<close>

definition wrap64 :: "int \<Rightarrow> int" where
  "wrap64 i = (i + 2 ^ 63) mod 2 ^ 64 - 2 ^ 63"

text \<open>
  The conversion \<^verbatim>\<open>int(f)\<close> discards the fraction (truncation towards zero). When the
  result is not a 64-bit integer, or \<open>f\<close> is NaN or infinite, the value is the
  implementation's: \<open>indefinite env f\<close> (on amd64, \<open>- 2 ^ 63\<close>).
\<close>

definition trunc :: "real \<Rightarrow> int" where
  "trunc x = (if 0 \<le> x then \<lfloor>x\<rfloor> else - \<lfloor>- x\<rfloor>)"

definition go_int :: "env \<Rightarrow> float64 \<Rightarrow> int" where
  "go_int env f =
     (case f of
        Fin x \<Rightarrow>
          if - (2 ^ 63) \<le> trunc x \<and> trunc x < 2 ^ 63 then trunc x
          else wrap64 (indefinite env f)
      | _ \<Rightarrow> wrap64 (indefinite env f))"

text \<open>
  The machine used in examples: every real is representable, out-of-range conversions
  give \<open>- 2 ^ 63\<close> as on amd64, and a buffer holds at most \<open>2 ^ 46\<close> samples.
\<close>

definition exact_env :: env where
  "exact_env =
     \<lparr>round64 = Fin, float32 = (\<lambda>x. x), indefinite = (\<lambda>f. - (2 ^ 63)), max_samples = 2 ^ 46\<rparr>"

subsection \<open>The external scan-converter\<close>

text \<open>
  \<^verbatim>\<open>golang.org/x/image/vector\<close> is an external library. Its \<^verbatim>\<open>Rasterizer\<close> is
  modelled by what the package hands to it: the size given at the last
  \<^verbatim>\<open>NewRasterizer\<close>/\<^verbatim>\<open>Reset\<close> and the path commands received since, in order.

  \<^verbatim>\<open>Reset(w, h)\<close> of the library sets up a buffer of \<open>n = w * h\<close> samples (a 64-bit
  product): it slices the buffer it has to \<open>n\<close> when that is large enough, which panics
  for a negative \<open>n\<close>, and makes a new one otherwise, which panics when \<open>n\<close> is more than
  the allocator grants. \<^verbatim>\<open>vector.NewRasterizer(w, h)\<close> is \<^verbatim>\<open>Reset(w, h)\<close> on a new,
  empty converter. The path commands and \<^verbatim>\<open>Draw\<close> on a converter that exists are taken
  not to fail (the contract the specification gives for this boundary); a call through
  a nil converter is the panic \<open>NilDereference\<close> of the caller.
\<close>

datatype vcmd =
    VMoveTo float32 float32
  | VLineTo float32 float32
  | VCubeTo float32 float32 float32 float32 float32 float32
  | VClosePath

record vRasterizer =
  vsize :: "int \<times> int"
  vpath :: "vcmd list"

text \<open>\<^verbatim>\<open>type Operator int\<close> with the constants \<^verbatim>\<open>bogus, moveto, lineto, cubeto = 0..3\<close>.\<close>

type_synonym Operator = int

definition bogus :: Operator where "bogus = 0"
definition moveto :: Operator where "moveto = 1"
definition lineto :: Operator where "lineto = 2"
definition cubeto :: Operator where "cubeto = 3"

text \<open>The run-time panics of the code are values.\<close>

datatype error =
    IndexOutOfRange
  | NilDereference
  | BufferPanic int
  | InvalidArgCount nat Operator
  | UnsupportedOp Operator

definition vector_Reset :: "env \<Rightarrow> int \<Rightarrow> int \<Rightarrow> vRasterizer \<Rightarrow> error + vRasterizer" where
  "vector_Reset env w h z =
     (let n = wrap64 (w * h) in
      if n < 0 \<or> max_samples env < n then Inl (BufferPanic n)
      else Inr (z\<lparr>vsize := (w, h), vpath := []\<rparr>))"

definition vector_NewRasterizer :: "env \<Rightarrow> int \<Rightarrow> int \<Rightarrow> error + vRasterizer" where
  "vector_NewRasterizer env w h = vector_Reset env w h \<lparr>vsize = (0, 0), vpath = []\<rparr>"

definition vector_do :: "vcmd \<Rightarrow> vRasterizer \<Rightarrow> vRasterizer" where
  "vector_do c z = z\<lparr>vpath := vpath z @ [c]\<rparr>"

subsection \<open>Data model\<close>

record Segment =
  Op :: Operator
  Args :: "float64 list"

record Entry =
  Closed :: bool
  Path :: "Segment list"
  MinX :: float64
  MaxX :: float64
  MinY :: float64
  MaxY :: float64

text \<open>\<^verbatim>\<open>R *vector.Rasterizer\<close> is a pointer that may be nil: an option.\<close>

record Rasterizer =
  R :: "vRasterizer option"
  Entries :: "Entry list"

subsection \<open>The recorder\<close>

definition NewRasterizer :: "env \<Rightarrow> int \<Rightarrow> int \<Rightarrow> error + Rasterizer" where
  "NewRasterizer env w h =
     (case vector_NewRasterizer env w h of
        Inl err \<Rightarrow> Inl err
      | Inr z \<Rightarrow> Inr \<lparr>R = Some z, Entries = []\<rparr>)"

text \<open>
  \<^verbatim>\<open>Reset\<close> calls \<^verbatim>\<open>r.R.Reset(w, h)\<close> and nothing else; with \<^verbatim>\<open>r.R == nil\<close> the
  callee writes through a nil pointer.
\<close>

definition Reset :: "env \<Rightarrow> int \<Rightarrow> int \<Rightarrow> Rasterizer \<Rightarrow> error + Rasterizer" where
  "Reset env w h r =
     (case R r of
        None \<Rightarrow> Inl NilDereference
      | Some z \<Rightarrow>
          (case vector_Reset env w h z of
             Inl err \<Rightarrow> Inl err
           | Inr z' \<Rightarrow> Inr (r\<lparr>R := Some z'\<rparr>)))"

text \<open>
  The body of the loop of \<^verbatim>\<open>extend\<close> for one coordinate pair \<open>(a, b)\<close> =
  \<^verbatim>\<open>(args[i], args[i+1])\<close>, on the entry \<^verbatim>\<open>r.Entries[n]\<close>:
  \<^verbatim>\<open>if a < MinX { MinX = a } else if a > MaxX { MaxX = a }\<close>, and the same for \<open>b\<close>.
\<close>

definition merge_x :: "float64 \<Rightarrow> Entry \<Rightarrow> Entry" where
  "merge_x a e =
     (if flt a (MinX e) then e\<lparr>MinX := a\<rparr>
      else if flt (MaxX e) a then e\<lparr>MaxX := a\<rparr>
      else e)"

definition merge_y :: "float64 \<Rightarrow> Entry \<Rightarrow> Entry" where
  "merge_y a e =
     (if flt a (MinY e) then e\<lparr>MinY := a\<rparr>
      else if flt (MaxY e) a then e\<lparr>MaxY := a\<rparr>
      else e)"

text \<open>
  The loop \<^verbatim>\<open>for ; i < len(args); i += 2\<close>, on the arguments from index \<open>i\<close> on.
  With one argument left, \<^verbatim>\<open>args[i+1]\<close> is out of range.
\<close>

fun extend_loop :: "float64 list \<Rightarrow> Entry \<Rightarrow> error + Entry" where
  "extend_loop [] e = Inr e"
| "extend_loop [a] e = Inl IndexOutOfRange"
| "extend_loop (a # b # rest) e = extend_loop rest (merge_y b (merge_x a e))"

text \<open>The loop from index \<open>i\<close> on entry \<open>n\<close>, then the append to \<^verbatim>\<open>r.Entries[n].Path\<close>.\<close>

definition extend_from :: "Operator \<Rightarrow> float64 list \<Rightarrow> nat \<Rightarrow> nat \<Rightarrow> Rasterizer \<Rightarrow> error + Rasterizer" where
  "extend_from op args i n r =
     (case extend_loop (drop i args) (Entries r ! n) of
        Inl err \<Rightarrow> Inl err
      | Inr e \<Rightarrow>
          Inr (r\<lparr>Entries := (Entries r)[n := e\<lparr>Path := Path e @ [\<lparr>Op = op, Args = args\<rparr>]\<rparr>]\<rparr>))"

text \<open>The method \<^verbatim>\<open>extend\<close> (named \<open>extend_path\<close>, the name \<open>extend\<close> being taken by the
  records). With \<^verbatim>\<open>r.R != nil\<close> it returns at once.\<close>

definition extend_path :: "Operator \<Rightarrow> float64 list \<Rightarrow> Rasterizer \<Rightarrow> error + Rasterizer" where
  "extend_path op args r =
     (if R r \<noteq> None then Inr r
      else
        let n = int (length (Entries r)) - 1 in
        if n < 0 \<or> Closed (Entries r ! nat n) then
          (case args of
             a0 # a1 # _ \<Rightarrow>
               extend_from op args 2 (nat (n + 1))
                 (r\<lparr>Entries := Entries r @
                    [\<lparr>Closed = False, Path = [], MinX = a0, MaxX = a0, MinY = a1, MaxY = a1\<rparr>]\<rparr>)
           | _ \<Rightarrow> Inl IndexOutOfRange)
        else extend_from op args 0 (nat n) r)"

text \<open>The methods \<^verbatim>\<open>MoveTo\<close>, \<^verbatim>\<open>LineTo\<close> and \<^verbatim>\<open>CubeTo\<close> of \<^verbatim>\<open>*Rasterizer\<close>: the call
  of \<^verbatim>\<open>extend\<close>, then the forwarding \<^verbatim>\<open>if r.R != nil { r.R.<op>(...) }\<close>.\<close>

definition forward :: "vcmd \<Rightarrow> Rasterizer \<Rightarrow> Rasterizer" where
  "forward c r = (case R r of None \<Rightarrow> r | Some z \<Rightarrow> r\<lparr>R := Some (vector_do c z)\<rparr>)"

definition MoveTo :: "env \<Rightarrow> float64 \<Rightarrow> float64 \<Rightarrow> Rasterizer \<Rightarrow> error + Rasterizer" where
  "MoveTo env x y r =
     (case extend_path moveto [x, y] r of
        Inl err \<Rightarrow> Inl err
      | Inr r' \<Rightarrow> Inr (forward (VMoveTo (float32 env x) (float32 env y)) r'))"

definition LineTo :: "env \<Rightarrow> float64 \<Rightarrow> float64 \<Rightarrow> Rasterizer \<Rightarrow> error + Rasterizer" where
  "LineTo env x y r =
     (case extend_path lineto [x, y] r of
        Inl err \<Rightarrow> Inl err
      | Inr r' \<Rightarrow> Inr (forward (VLineTo (float32 env x) (float32 env y)) r'))"

definition CubeTo :: "env \<Rightarrow> float64 \<Rightarrow> float64 \<Rightarrow> float64 \<Rightarrow> float64 \<Rightarrow> float64 \<Rightarrow> float64
    \<Rightarrow> Rasterizer \<Rightarrow> error + Rasterizer" where
  "CubeTo env a b c d e f r =
     (case extend_path cubeto [a, b, c, d, e, f] r of
        Inl err \<Rightarrow> Inl err
      | Inr r' \<Rightarrow>
          Inr (forward (VCubeTo (float32 env a) (float32 env b) (float32 env c)
                                (float32 env d) (float32 env e) (float32 env f)) r'))"

text \<open>\<^verbatim>\<open>r.Entries[len(r.Entries)-1].Closed = true\<close>: index \<open>-1\<close> when there is no entry.\<close>

definition ClosePath :: "Rasterizer \<Rightarrow> error + Rasterizer" where
  "ClosePath r =
     (case R r of
        Some z \<Rightarrow> Inr (r\<lparr>R := Some (vector_do VClosePath z)\<rparr>)
      | None \<Rightarrow>
          let n = int (length (Entries r)) - 1 in
          if n < 0 then Inl IndexOutOfRange
          else Inr (r\<lparr>Entries := (Entries r)[nat n := (Entries r ! nat n)\<lparr>Closed := True\<rparr>]\<rparr>))"

subsection \<open>Render\<close>

text \<open>
  The destination image and the colour are opaque. What \<^verbatim>\<open>vr.Draw(im, image.Rect(x0, y0,
  x1, y1), image.NewUniform(col), image.ZP)\<close> does to the image is a parameter \<open>dr\<close>, a
  function of the converter \<open>vr\<close>, the four arguments of \<^verbatim>\<open>image.Rect\<close>, the colour and
  the image before.
\<close>

type_synonym ('c, 'im) draw = "vRasterizer \<Rightarrow> int \<times> int \<times> int \<times> int \<Rightarrow> 'c \<Rightarrow> 'im \<Rightarrow> 'im"

text \<open>The closures \<^verbatim>\<open>toX\<close> and \<^verbatim>\<open>toY\<close>: \<^verbatim>\<open>float32(1 + x - e.MinX)\<close>.\<close>

definition toX :: "env \<Rightarrow> Entry \<Rightarrow> float64 \<Rightarrow> float32" where
  "toX env e x = float32 env (fsub env (fadd env (Fin 1) x) (MinX e))"

definition toY :: "env \<Rightarrow> Entry \<Rightarrow> float64 \<Rightarrow> float32" where
  "toY env e y = float32 env (fsub env (fadd env (Fin 1) y) (MinY e))"

text \<open>
  The loop \<^verbatim>\<open>for _, p := range e.Path\<close> on the converter \<open>vr\<close>: the check of the
  argument count, then the switch on the operator.
\<close>

fun replay :: "env \<Rightarrow> Entry \<Rightarrow> Segment list \<Rightarrow> vRasterizer \<Rightarrow> error + vRasterizer" where
  "replay env e [] vr = Inr vr"
| "replay env e (p # ps) vr =
     (let a = Args p in
      if (Op p = cubeto \<and> length a \<noteq> 6) \<or> (Op p \<noteq> cubeto \<and> length a \<noteq> 2)
      then Inl (InvalidArgCount (length a) (Op p))
      else if Op p = moveto
      then replay env e ps (vector_do (VMoveTo (toX env e (a ! 0)) (toY env e (a ! 1))) vr)
      else if Op p = lineto
      then replay env e ps (vector_do (VLineTo (toX env e (a ! 0)) (toY env e (a ! 1))) vr)
      else if Op p = cubeto
      then replay env e ps
             (vector_do (VCubeTo (toX env e (a ! 0)) (toY env e (a ! 1)) (toX env e (a ! 2))
                                 (toY env e (a ! 3)) (toX env e (a ! 4)) (toY env e (a ! 5))) vr)
      else Inl (UnsupportedOp (Op p)))"

text \<open>
  The loop \<^verbatim>\<open>for _, e := range r.Entries\<close> on the image, statement by statement: the
  two sizes, the allocation of the converter (which may panic), only then the test of
  \<^verbatim>\<open>e.Closed\<close>, the replay, the forced close, the offset and the draw, whose rectangle
  has the 64-bit sums \<^verbatim>\<open>ix+wide\<close> and \<^verbatim>\<open>iy+high\<close>. A panic leaves the image as the
  entries before it have made it: the result \<open>Inl (err, im)\<close> carries that image.
\<close>

fun render_entries :: "env \<Rightarrow> ('c, 'im) draw \<Rightarrow> float64 \<Rightarrow> float64 \<Rightarrow> 'c \<Rightarrow> Entry list \<Rightarrow> 'im
    \<Rightarrow> (error \<times> 'im) + 'im" where
  "render_entries env dr x y col [] im = Inr im"
| "render_entries env dr x y col (e # es) im =
     (let wide = go_int env (fsub env (fadd env (Fin 2) (MaxX e)) (MinX e));
          high = go_int env (fsub env (fadd env (Fin 2) (MaxY e)) (MinY e))
      in case vector_NewRasterizer env wide high of
           Inl err \<Rightarrow> Inl (err, im)
         | Inr vr \<Rightarrow>
             if \<not> Closed e then render_entries env dr x y col es im
             else
               (case replay env e (Path e) vr of
                  Inl err \<Rightarrow> Inl (err, im)
                | Inr vr' \<Rightarrow>
                    let vr'' = vector_do VClosePath vr';
                        ix = go_int env (fsub env (fadd env x (MinX e)) (Fin 1));
                        iy = go_int env (fsub env (fadd env y (MinY e)) (Fin 1))
                    in render_entries env dr x y col es
                         (dr vr'' (ix, iy, wrap64 (ix + wide), wrap64 (iy + high)) col im)))"

definition Render :: "env \<Rightarrow> ('c, 'im) draw \<Rightarrow> 'im \<Rightarrow> float64 \<Rightarrow> float64 \<Rightarrow> 'c \<Rightarrow> Rasterizer
    \<Rightarrow> (error \<times> 'im) + 'im" where
  "Render env dr im x y col r = render_entries env dr x y col (Entries r) im"

subsection \<open>Boxes and call sequences\<close>

text \<open>The spec's merge of a point into a box: independent min/max per axis, with Go's
  comparisons.\<close>

definition fmin :: "float64 \<Rightarrow> float64 \<Rightarrow> float64" where
  "fmin a b = (if flt a b then a else b)"

definition fmax :: "float64 \<Rightarrow> float64 \<Rightarrow> float64" where
  "fmax a b = (if flt b a then a else b)"

definition merge_point :: "float64 \<Rightarrow> float64 \<Rightarrow> Entry \<Rightarrow> Entry" where
  "merge_point x y e =
     e\<lparr>MinX := fmin x (MinX e), MaxX := fmax x (MaxX e),
       MinY := fmin y (MinY e), MaxY := fmax y (MaxY e)\<rparr>"

text \<open>A box in order: on neither axis is the maximum below the minimum.\<close>

definition box_ok :: "Entry \<Rightarrow> bool" where
  "box_ok e = (\<not> flt (MaxX e) (MinX e) \<and> \<not> flt (MaxY e) (MinY e))"

text \<open>A call of MoveTo, LineTo or CubeTo with its arguments, and a run of such calls on a
  recorder; a panic ends the run.\<close>

datatype call =
    CallMoveTo float64 float64
  | CallLineTo float64 float64
  | CallCubeTo float64 float64 float64 float64 float64 float64

fun do_call :: "env \<Rightarrow> call \<Rightarrow> Rasterizer \<Rightarrow> error + Rasterizer" where
  "do_call env (CallMoveTo x y) r = MoveTo env x y r"
| "do_call env (CallLineTo x y) r = LineTo env x y r"
| "do_call env (CallCubeTo a b c d e f) r = CubeTo env a b c d e f r"

fun do_calls :: "env \<Rightarrow> call list \<Rightarrow> Rasterizer \<Rightarrow> error + Rasterizer" where
  "do_calls env [] r = Inr r"
| "do_calls env (c # cs) r =
     (case do_call env c r of Inl err \<Rightarrow> Inl err | Inr r' \<Rightarrow> do_calls env cs r')"

text \<open>The coordinate pairs a call passes, and the segment it records.\<close>

fun call_points :: "call \<Rightarrow> (float64 \<times> float64) list" where
  "call_points (CallMoveTo x y) = [(x, y)]"
| "call_points (CallLineTo x y) = [(x, y)]"
| "call_points (CallCubeTo a b c d e f) = [(a, b), (c, d), (e, f)]"

fun call_segment :: "call \<Rightarrow> Segment" where
  "call_segment (CallMoveTo x y) = \<lparr>Op = moveto, Args = [x, y]\<rparr>"
| "call_segment (CallLineTo x y) = \<lparr>Op = lineto, Args = [x, y]\<rparr>"
| "call_segment (CallCubeTo a b c d e f) = \<lparr>Op = cubeto, Args = [a, b, c, d, e, f]\<rparr>"

definition points :: "call list \<Rightarrow> (float64 \<times> float64) list" where
  "points cs = concat (map call_points cs)"

text \<open>No coordinate of the list is NaN.\<close>

definition no_NaN :: "(float64 \<times> float64) list \<Rightarrow> bool" where
  "no_NaN pts = list_all (\<lambda>p. fst p \<noteq> NaN \<and> snd p \<noteq> NaN) pts"

text \<open>
  The exact minimum and maximum of a list of coordinates: a member of the list that
  is \<^verbatim>\<open><=\<close> every member, and one that every member is \<^verbatim>\<open><=\<close>. Without NaN there is
  exactly one of each.
\<close>

definition least :: "float64 list \<Rightarrow> float64 \<Rightarrow> bool" where
  "least xs m = (m \<in> set xs \<and> list_all (\<lambda>x. fle m x) xs)"

definition greatest :: "float64 list \<Rightarrow> float64 \<Rightarrow> bool" where
  "greatest xs m = (m \<in> set xs \<and> list_all (\<lambda>x. fle x m) xs)"

text \<open>The exact axis-aligned box of a list of points.\<close>

definition exact_box :: "(float64 \<times> float64) list \<Rightarrow> Entry \<Rightarrow> bool" where
  "exact_box pts e =
     (least (map fst pts) (MinX e) \<and> greatest (map fst pts) (MaxX e) \<and>
      least (map snd pts) (MinY e) \<and> greatest (map snd pts) (MaxY e))"

subsection \<open>The replay as the specification words it\<close>

text \<open>The rule of the argument counts: two for move and line, six for cube, no other operator.\<close>

definition well_formed :: "Segment \<Rightarrow> bool" where
  "well_formed p =
     (((Op p = moveto \<or> Op p = lineto) \<and> length (Args p) = 2)
      \<or> (Op p = cubeto \<and> length (Args p) = 6))"

text \<open>The panic a segment that breaks the rule raises.\<close>

definition violation :: "Segment \<Rightarrow> error" where
  "violation p =
     (if (Op p = cubeto \<and> length (Args p) \<noteq> 6) \<or> (Op p \<noteq> cubeto \<and> length (Args p) \<noteq> 2)
      then InvalidArgCount (length (Args p)) (Op p)
      else UnsupportedOp (Op p))"

text \<open>Width \<open>int(2 + maxX - minX)\<close> and height \<open>int(2 + maxY - minY)\<close>.\<close>

definition footprint :: "env \<Rightarrow> Entry \<Rightarrow> int \<times> int" where
  "footprint env e =
     (go_int env (fsub env (fadd env (Fin 2) (MaxX e)) (MinX e)),
      go_int env (fsub env (fadd env (Fin 2) (MaxY e)) (MinY e)))"

text \<open>The buffer of the footprint can be allocated: its sample count, a 64-bit product,
  is not negative and not more than the allocator grants.\<close>

definition buffer_fits :: "env \<Rightarrow> Entry \<Rightarrow> bool" where
  "buffer_fits env e =
     (let (w, h) = footprint env e
      in 0 \<le> wrap64 (w * h) \<and> wrap64 (w * h) \<le> max_samples env)"

text \<open>\<open>local_x = 1 + x - minX\<close> and \<open>local_y = 1 + y - minY\<close>, as \<^verbatim>\<open>float32\<close>.\<close>

definition local_x :: "env \<Rightarrow> Entry \<Rightarrow> float64 \<Rightarrow> float32" where
  "local_x env e x = float32 env (fsub env (fadd env (Fin 1) x) (MinX e))"

definition local_y :: "env \<Rightarrow> Entry \<Rightarrow> float64 \<Rightarrow> float32" where
  "local_y env e y = float32 env (fsub env (fadd env (Fin 1) y) (MinY e))"

text \<open>A well-formed segment in local coordinates, with the matching operation.\<close>

definition local_cmd :: "env \<Rightarrow> Entry \<Rightarrow> Segment \<Rightarrow> vcmd" where
  "local_cmd env e p =
     (case Args p of
        [px, py] \<Rightarrow>
          if Op p = moveto then VMoveTo (local_x env e px) (local_y env e py)
          else VLineTo (local_x env e px) (local_y env e py)
      | [x1, y1, x2, y2, x3, y3] \<Rightarrow>
          VCubeTo (local_x env e x1) (local_y env e y1) (local_x env e x2)
                  (local_y env e y2) (local_x env e x3) (local_y env e y3)
      | _ \<Rightarrow> VClosePath)"

text \<open>The buffer of an entry: its footprint, every segment in order, then the forced close.\<close>

definition entry_buffer :: "env \<Rightarrow> Entry \<Rightarrow> vRasterizer" where
  "entry_buffer env e =
     \<lparr>vsize = footprint env e, vpath = map (local_cmd env e) (Path e) @ [VClosePath]\<rparr>"

text \<open>The integer pixel offset \<open>(int(x + minX - 1), int(y + minY - 1))\<close>.\<close>

definition offset :: "env \<Rightarrow> float64 \<Rightarrow> float64 \<Rightarrow> Entry \<Rightarrow> int \<times> int" where
  "offset env x y e =
     (go_int env (fsub env (fadd env x (MinX e)) (Fin 1)),
      go_int env (fsub env (fadd env y (MinY e)) (Fin 1)))"

text \<open>Compositing one entry: its buffer drawn on the rectangle from its offset to the
  offset plus the footprint, the sums being those of 64-bit integers.\<close>

definition composite :: "env \<Rightarrow> ('c, 'im) draw \<Rightarrow> float64 \<Rightarrow> float64 \<Rightarrow> 'c \<Rightarrow> 'im \<Rightarrow> Entry \<Rightarrow> 'im" where
  "composite env dr x y col im e =
     (let (ox, oy) = offset env x y e; (w, h) = footprint env e
      in dr (entry_buffer env e) (ox, oy, wrap64 (ox + w), wrap64 (oy + h)) col im)"

text \<open>The invariant of the data model: every segment of every entry obeys the rule.\<close>

definition entries_well_formed :: "Rasterizer \<Rightarrow> bool" where
  "entries_well_formed r = list_all (\<lambda>e. list_all well_formed (Path e)) (Entries r)"

subsection \<open>Examples\<close>

text \<open>\<^verbatim>\<open>&Rasterizer{}\<close>: no converter, no entries.\<close>

definition buffered :: Rasterizer where
  "buffered = \<lparr>R = None, Entries = []\<rparr>"

text \<open>The entry left by MoveTo(0,0), LineTo(4,0), LineTo(4,3), and the same after ClosePath.\<close>

definition open_triangle :: Entry where
  "open_triangle =
     \<lparr>Closed = False,
      Path = [\<lparr>Op = moveto, Args = [Fin 0, Fin 0]\<rparr>, \<lparr>Op = lineto, Args = [Fin 4, Fin 0]\<rparr>,
              \<lparr>Op = lineto, Args = [Fin 4, Fin 3]\<rparr>],
      MinX = Fin 0, MaxX = Fin 4, MinY = Fin 0, MaxY = Fin 3\<rparr>"

definition triangle :: Entry where
  "triangle = open_triangle\<lparr>Closed := True\<rparr>"

text \<open>An example destination: the image is the list of the draws made on it.\<close>

definition draw_log :: "(string, (vRasterizer \<times> (int \<times> int \<times> int \<times> int) \<times> string) list) draw" where
  "draw_log vr rect col im = im @ [(vr, rect, col)]"

text \<open>A closed entry with a cubic curve and a fractional box; an abandoned entry whose
  segments break the rule; a closed entry holding the sentinel operator.\<close>

definition arch :: Entry where
  "arch =
     \<lparr>Closed = True,
      Path = [\<lparr>Op = moveto, Args = [Fin (5 / 2), Fin 1]\<rparr>,
              \<lparr>Op = cubeto, Args = [Fin (5 / 2), Fin 3, Fin 6, Fin 3, Fin 6, Fin 1]\<rparr>],
      MinX = Fin (5 / 2), MaxX = Fin 6, MinY = Fin 1, MaxY = Fin 3\<rparr>"

definition abandoned :: Entry where
  "abandoned =
     \<lparr>Closed = False,
      Path = [\<lparr>Op = bogus, Args = []\<rparr>, \<lparr>Op = cubeto, Args = [Fin 1]\<rparr>],
      MinX = Fin 0, MaxX = Fin 1, MinY = Fin 0, MaxY = Fin 1\<rparr>"

definition broken :: Entry where
  "broken =
     \<lparr>Closed = True,
      Path = [\<lparr>Op = moveto, Args = [Fin 0, Fin 0]\<rparr>, \<lparr>Op = bogus, Args = [Fin 1, Fin 2]\<rparr>,
              \<lparr>Op = lineto, Args = [Fin 1, Fin 1]\<rparr>],
      MinX = Fin 0, MaxX = Fin 1, MinY = Fin 0, MaxY = Fin 2\<rparr>"

text \<open>The open entry left by MoveTo(0,0), LineTo(1e10,1e10), and the same after ClosePath.\<close>

definition far_open :: Entry where
  "far_open =
     \<lparr>Closed = False,
      Path = [\<lparr>Op = moveto, Args = [Fin 0, Fin 0]\<rparr>,
              \<lparr>Op = lineto, Args = [Fin 10000000000, Fin 10000000000]\<rparr>],
      MinX = Fin 0, MaxX = Fin 10000000000, MinY = Fin 0, MaxY = Fin 10000000000\<rparr>"

text \<open>The closed entry left by MoveTo(0,0), LineTo(1e30,0), ClosePath.\<close>

definition long_line :: Entry where
  "long_line =
     \<lparr>Closed = True,
      Path = [\<lparr>Op = moveto, Args = [Fin 0, Fin 0]\<rparr>,
              \<lparr>Op = lineto, Args = [Fin (10 ^ 30), Fin 0]\<rparr>],
      MinX = Fin 0, MaxX = Fin (10 ^ 30), MinY = Fin 0, MaxY = Fin 0\<rparr>"

text \<open>What rendering the triangle and the arch at offset \<open>(10, 20)\<close> draws.\<close>

definition triangle_drawn :: "vRasterizer \<times> (int \<times> int \<times> int \<times> int) \<times> string" where
  "triangle_drawn =
     (\<lparr>vsize = (6, 5),
       vpath = [VMoveTo (Fin 1) (Fin 1), VLineTo (Fin 5) (Fin 1), VLineTo (Fin 5) (Fin 4),
                VClosePath]\<rparr>,
      (9, 19, 15, 24), ''black'')"

definition arch_drawn :: "vRasterizer \<times> (int \<times> int \<times> int \<times> int) \<times> string" where
  "arch_drawn =
     (\<lparr>vsize = (5, 4),
       vpath = [VMoveTo (Fin 1) (Fin 1),
                VCubeTo (Fin 1) (Fin 3) (Fin (9 / 2)) (Fin 3) (Fin (9 / 2)) (Fin 1), VClosePath]\<rparr>,
      (11, 20, 16, 24), ''black'')"

section \<open>The order of the floats\<close>

lemmas Operator_defs = bogus_def moveto_def lineto_def cubeto_def

lemma flt_NaN [simp]: "\<not> flt a NaN" "\<not> flt NaN b"
  by (cases a) simp_all

lemma flt_irrefl [simp]: "\<not> flt a a"
  by (cases a) simp_all

lemma flt_trans: "flt a b \<Longrightarrow> flt b c \<Longrightarrow> flt a c"
  by (cases a; cases b; cases c) simp_all

lemma flt_asym: "flt a b \<Longrightarrow> \<not> flt b a"
  using flt_trans [of a b a] by auto


lemma flt_chain: "flt x m \<Longrightarrow> \<not> flt M m \<Longrightarrow> \<not> flt M x"
  using flt_trans [of M x m] by auto









section \<open>Helper lemmas on the recorder\<close>

lemma merge_x_fields [simp]:
  "Closed (merge_x a e) = Closed e" "Path (merge_x a e) = Path e"
  "MinY (merge_x a e) = MinY e" "MaxY (merge_x a e) = MaxY e"
  by (simp_all add: merge_x_def)

lemma merge_y_fields [simp]:
  "Closed (merge_y a e) = Closed e" "Path (merge_y a e) = Path e"
  "MinX (merge_y a e) = MinX e" "MaxX (merge_y a e) = MaxX e"
  by (simp_all add: merge_y_def)

lemma last_index: "es \<noteq> [] \<Longrightarrow> es ! nat (int (length es) - 1) = last es"
  by (simp add: last_conv_nth nat_diff_distrib')

lemma extend_path_new:
  assumes "R r = None" and "Entries r = [] \<or> Closed (last (Entries r))"
    and "extend_loop rest \<lparr>Closed = False, Path = [], MinX = a0, MaxX = a0, MinY = a1, MaxY = a1\<rparr> = Inr e"
  shows "extend_path op (a0 # a1 # rest) r =
           Inr (r\<lparr>Entries := Entries r @ [e\<lparr>Path := Path e @ [\<lparr>Op = op, Args = a0 # a1 # rest\<rparr>]\<rparr>]\<rparr>)"
proof -
  have c: "int (length (Entries r)) - 1 < 0 \<or> Closed (Entries r ! nat (int (length (Entries r)) - 1))"
    using assms(2) by (cases "Entries r = []") (simp_all add: last_index)
  have n: "nat (int (length (Entries r)) - 1 + 1) = length (Entries r)"
    by simp
  show ?thesis
    unfolding extend_path_def Let_def using assms(1,3) c
    by (simp add: extend_from_def n del: of_nat_diff)
qed

lemma extend_path_open:
  assumes "R r = None" and "Entries r = es @ [e]" and "\<not> Closed e"
    and "extend_loop args e = Inr e'"
  shows "extend_path op args r =
           Inr (r\<lparr>Entries := es @ [e'\<lparr>Path := Path e' @ [\<lparr>Op = op, Args = args\<rparr>]\<rparr>]\<rparr>)"
proof -
  have n: "nat (int (length (Entries r)) - 1) = length es"
    using assms(2) by simp
  have c: "\<not> (int (length (Entries r)) - 1 < 0 \<or> Closed (Entries r ! nat (int (length (Entries r)) - 1)))"
    using assms(2,3) by (simp add: n)
  show ?thesis
    unfolding extend_path_def Let_def using assms(1,4) c
    by (simp add: extend_from_def n assms(2))
qed

text \<open>On a box in order the comparisons of \<^verbatim>\<open>extend\<close> are the min/max merge, NaN or not.\<close>

lemma merge_is_merge_point:
  "box_ok e \<Longrightarrow> merge_y y (merge_x x e) = merge_point x y e"
  by (auto simp add: box_ok_def merge_x_def merge_y_def merge_point_def fmin_def fmax_def
      dest: flt_chain)

lemma merge_point_fields [simp]:
  "Closed (merge_point x y e) = Closed e" "Path (merge_point x y e) = Path e"
  by (simp_all add: merge_point_def)

lemma box_ok_merge_point [simp]: "box_ok e \<Longrightarrow> box_ok (merge_point x y e)"
  by (auto simp add: box_ok_def merge_point_def fmin_def fmax_def dest: flt_trans flt_chain)

lemma extend_path_fresh:
  assumes "R r = None" and "Entries r = [] \<or> Closed (last (Entries r))"
    and "extend_loop rest \<lparr>Closed = False, Path = [], MinX = a0, MaxX = a0, MinY = a1, MaxY = a1\<rparr> = Inr e"
    and "e' = e\<lparr>Path := Path e @ [\<lparr>Op = op, Args = a0 # a1 # rest\<rparr>]\<rparr>"
  shows "extend_path op (a0 # a1 # rest) r = Inr (r\<lparr>Entries := Entries r @ [e']\<rparr>)"
  using extend_path_new [OF assms(1,2,3)] assms(4) by simp

text \<open>The calls the package makes: two arguments or six, on no open entry or on one.\<close>

lemma extend_path_fresh2:
  assumes "R r = None" and "Entries r = [] \<or> Closed (last (Entries r))"
  shows "extend_path op [x, y] r =
           Inr (r\<lparr>Entries := Entries r @
             [\<lparr>Closed = False, Path = [\<lparr>Op = op, Args = [x, y]\<rparr>],
               MinX = x, MaxX = x, MinY = y, MaxY = y\<rparr>]\<rparr>)"
  using assms extend_loop.simps(1) by (rule extend_path_fresh) simp

lemma extend_path_fresh6:
  assumes "R r = None" and "Entries r = [] \<or> Closed (last (Entries r))"
  shows "extend_path op [a, b, c, d, e, f] r =
           Inr (r\<lparr>Entries := Entries r @
             [merge_point e f (merge_point c d
                \<lparr>Closed = False, Path = [\<lparr>Op = op, Args = [a, b, c, d, e, f]\<rparr>],
                  MinX = a, MaxX = a, MinY = b, MaxY = b\<rparr>)]\<rparr>)"
proof -
  let ?i = "\<lparr>Closed = False, Path = [], MinX = a, MaxX = a, MinY = b, MaxY = b\<rparr>"
  have "box_ok ?i"
    by (simp add: box_ok_def)
  then have ok: "box_ok ?i" "box_ok (merge_point c d ?i)"
    by simp_all
  have l: "extend_loop [c, d, e, f] ?i = Inr (merge_point e f (merge_point c d ?i))"
    using ok by (simp add: merge_is_merge_point)
  show ?thesis
    using assms l by (rule extend_path_fresh) (simp add: merge_point_def)
qed

lemma extend_path_open2:
  assumes "R r = None" and "Entries r = es @ [en]" and "\<not> Closed en"
  shows "extend_path op [x, y] r =
           Inr (r\<lparr>Entries := es @
             [(merge_y y (merge_x x en))\<lparr>Path := Path en @ [\<lparr>Op = op, Args = [x, y]\<rparr>]\<rparr>]\<rparr>)"
proof -
  have "extend_loop [x, y] en = Inr (merge_y y (merge_x x en))" by simp
  from extend_path_open [OF assms this] show ?thesis by simp
qed


lemma forward_buffered [simp]: "R r = None \<Longrightarrow> forward c (r\<lparr>Entries := es\<rparr>) = r\<lparr>Entries := es\<rparr>"
  by (simp add: forward_def)

text \<open>The example entries \<open>triangle\<close> and \<open>arch\<close> are what the recorder records.\<close>

lemma triangle_recorded:
  "do_calls exact_env [CallMoveTo (Fin 0) (Fin 0), CallLineTo (Fin 4) (Fin 0),
       CallLineTo (Fin 4) (Fin 3)] buffered
     = Inr \<lparr>R = None, Entries = [open_triangle]\<rparr>"
  "ClosePath \<lparr>R = None, Entries = [open_triangle]\<rparr> = Inr \<lparr>R = None, Entries = [triangle]\<rparr>"
  by (simp_all add: buffered_def open_triangle_def triangle_def MoveTo_def LineTo_def
      ClosePath_def extend_path_def extend_from_def merge_x_def merge_y_def forward_def)

lemma arch_recorded:
  "do_calls exact_env [CallMoveTo (Fin (5 / 2)) (Fin 1),
       CallCubeTo (Fin (5 / 2)) (Fin 3) (Fin 6) (Fin 3) (Fin 6) (Fin 1)] buffered
     = Inr \<lparr>R = None, Entries = [arch\<lparr>Closed := False\<rparr>]\<rparr>"
  "ClosePath \<lparr>R = None, Entries = [arch\<lparr>Closed := False\<rparr>]\<rparr> = Inr \<lparr>R = None, Entries = [arch]\<rparr>"
  by (simp_all add: buffered_def arch_def MoveTo_def CubeTo_def
      ClosePath_def extend_path_def extend_from_def merge_x_def merge_y_def forward_def)

lemma far_open_recorded:
  "do_calls exact_env [CallMoveTo (Fin 0) (Fin 0), CallLineTo (Fin 10000000000) (Fin 10000000000)]
       \<lparr>R = None, Entries = [triangle]\<rparr>
     = Inr \<lparr>R = None, Entries = [triangle, far_open]\<rparr>"
  by (simp add: far_open_def triangle_def MoveTo_def LineTo_def
      extend_path_def extend_from_def merge_x_def merge_y_def forward_def)

lemma long_line_recorded:
  "do_calls exact_env [CallMoveTo (Fin 0) (Fin 0), CallLineTo (Fin (10 ^ 30)) (Fin 0)] buffered
     = Inr \<lparr>R = None, Entries = [long_line\<lparr>Closed := False\<rparr>]\<rparr>"
  "ClosePath \<lparr>R = None, Entries = [long_line\<lparr>Closed := False\<rparr>]\<rparr>
     = Inr \<lparr>R = None, Entries = [long_line]\<rparr>"
  by (simp_all add: buffered_def long_line_def MoveTo_def LineTo_def
      ClosePath_def extend_path_def extend_from_def merge_x_def merge_y_def forward_def)

text \<open>Every segment the recorder appends obeys the rule of the argument counts.\<close>

lemma call_segment_well_formed: "well_formed (call_segment c)"
  by (cases c) (simp_all add: well_formed_def)

section \<open>The bounding box of a recorded entry\<close>






lemma exact_box_Path [simp]: "exact_box pts (e\<lparr>Path := p\<rparr>) = exact_box pts e"
  by (simp add: exact_box_def)

lemma Entries_update_eq [simp]:
  "(r\<lparr>Entries := a\<rparr> = r\<lparr>Entries := b\<rparr>) = (a = b)"
proof
  assume "r\<lparr>Entries := a\<rparr> = r\<lparr>Entries := b\<rparr>"
  then have "Entries (r\<lparr>Entries := a\<rparr>) = Entries (r\<lparr>Entries := b\<rparr>)" by (rule arg_cong)
  then show "a = b" by simp
qed simp

lemma no_NaN_append [simp]: "no_NaN (ps @ qs) = (no_NaN ps \<and> no_NaN qs)"
  by (simp add: no_NaN_def)

lemma no_NaN_points_Cons [simp]: "no_NaN (points (c # cs)) = (no_NaN (call_points c) \<and> no_NaN (points cs))"
  by (simp add: points_def)








section \<open>Reset\<close>

text \<open>
  C3 (Reset discards all recorded entries) does not hold of the code:
  \<^verbatim>\<open>Reset\<close> only calls \<^verbatim>\<open>r.R.Reset(w, h)\<close>. On a buffered recorder holding the
  closed triangle it dereferences the nil converter, and the entry is not discarded; on a
  recorder with a converter it reinitialises the converter and leaves \<open>Entries\<close> as
  they were, empty or not.
\<close>

theorem Reset_does_not_discard_entries:
  "Reset exact_env 10 10 \<lparr>R = None, Entries = [triangle]\<rparr> = Inl NilDereference
   \<and> Reset exact_env 10 10 \<lparr>R = Some \<lparr>vsize = (20, 20), vpath = []\<rparr>, Entries = [triangle]\<rparr>
       = Inr \<lparr>R = Some \<lparr>vsize = (10, 10), vpath = []\<rparr>, Entries = [triangle]\<rparr>"
  by (simp add: Reset_def vector_Reset_def wrap64_def exact_env_def)

section \<open>Immediate mode\<close>

text \<open>
  C6. With a wrapped converter present (\<open>R r = Some z\<close>), each of MoveTo, LineTo, CubeTo
  and ClosePath returns normally and leaves \<open>Entries\<close> as it was: \<open>extend\<close> returns at
  once without touching the recorder, and the command goes to the converter.
\<close>

theorem immediate_mode_keeps_Entries:
  assumes "R r = Some z"
  shows "extend_path op args r = Inr r
       \<and> (\<exists>r'. MoveTo env x y r = Inr r' \<and> Entries r' = Entries r
              \<and> R r' = Some (vector_do (VMoveTo (float32 env x) (float32 env y)) z))
       \<and> (\<exists>r'. LineTo env x y r = Inr r' \<and> Entries r' = Entries r
              \<and> R r' = Some (vector_do (VLineTo (float32 env x) (float32 env y)) z))
       \<and> (\<exists>r'. CubeTo env a b c d e f r = Inr r' \<and> Entries r' = Entries r
              \<and> R r' = Some (vector_do (VCubeTo (float32 env a) (float32 env b) (float32 env c)
                                                (float32 env d) (float32 env e) (float32 env f)) z))
       \<and> (\<exists>r'. ClosePath r = Inr r' \<and> Entries r' = Entries r
              \<and> R r' = Some (vector_do VClosePath z))"
  using assms
  by (simp add: MoveTo_def LineTo_def CubeTo_def ClosePath_def extend_path_def forward_def)

theorem immediate_mode_keeps_Entries_witness:
  "NewRasterizer exact_env 20 10 = Inr \<lparr>R = Some \<lparr>vsize = (20, 10), vpath = []\<rparr>, Entries = []\<rparr>
   \<and> R \<lparr>R = Some \<lparr>vsize = (20, 10), vpath = []\<rparr>, Entries = []\<rparr>
       = Some \<lparr>vsize = (20, 10), vpath = []\<rparr>
   \<and> extend_path moveto [Fin 1, Fin 2] \<lparr>R = Some \<lparr>vsize = (20, 10), vpath = []\<rparr>, Entries = []\<rparr>
       = Inr \<lparr>R = Some \<lparr>vsize = (20, 10), vpath = []\<rparr>, Entries = []\<rparr>
   \<and> (\<exists>r'. MoveTo exact_env (Fin 1) (Fin 2)
              \<lparr>R = Some \<lparr>vsize = (20, 10), vpath = []\<rparr>, Entries = []\<rparr> = Inr r'
          \<and> Entries r' = []
          \<and> R r' = Some \<lparr>vsize = (20, 10), vpath = [VMoveTo (Fin 1) (Fin 2)]\<rparr>)
   \<and> (\<exists>r'. LineTo exact_env (Fin 1) (Fin 2)
              \<lparr>R = Some \<lparr>vsize = (20, 10), vpath = []\<rparr>, Entries = []\<rparr> = Inr r'
          \<and> Entries r' = []
          \<and> R r' = Some \<lparr>vsize = (20, 10), vpath = [VLineTo (Fin 1) (Fin 2)]\<rparr>)
   \<and> (\<exists>r'. CubeTo exact_env (Fin 1) (Fin 2) (Fin 3) (Fin 4) (Fin 5) (Fin 6)
              \<lparr>R = Some \<lparr>vsize = (20, 10), vpath = []\<rparr>, Entries = []\<rparr> = Inr r'
          \<and> Entries r' = []
          \<and> R r' = Some \<lparr>vsize = (20, 10),
                          vpath = [VCubeTo (Fin 1) (Fin 2) (Fin 3) (Fin 4) (Fin 5) (Fin 6)]\<rparr>)
   \<and> (\<exists>r'. ClosePath \<lparr>R = Some \<lparr>vsize = (20, 10), vpath = []\<rparr>, Entries = []\<rparr> = Inr r'
          \<and> Entries r' = []
          \<and> R r' = Some \<lparr>vsize = (20, 10), vpath = [VClosePath]\<rparr>)"
proof -
  have n: "NewRasterizer exact_env 20 10 = Inr \<lparr>R = Some \<lparr>vsize = (20, 10), vpath = []\<rparr>, Entries = []\<rparr>"
    by (simp add: NewRasterizer_def vector_NewRasterizer_def vector_Reset_def wrap64_def
        exact_env_def)
  have h: "R \<lparr>R = Some \<lparr>vsize = (20, 10), vpath = []\<rparr>, Entries = []\<rparr>
             = Some \<lparr>vsize = (20, 10), vpath = []\<rparr>"
    by simp
  show ?thesis
    using n h immediate_mode_keeps_Entries [OF h, where op = moveto and args = "[Fin 1, Fin 2]"
        and env = exact_env and x = "Fin 1" and y = "Fin 2" and a = "Fin 1" and b = "Fin 2"
        and c = "Fin 3" and d = "Fin 4" and e = "Fin 5" and f = "Fin 6"]
    by (simp add: vector_do_def exact_env_def)
qed

section \<open>ClosePath without an open entry\<close>

text \<open>
  C7, as stated, fails: on a buffered recorder whose most recent entry is already
  closed, ClosePath returns normally and the recorder is unchanged.
\<close>

theorem ClosePath_on_closed_entry_returns:
  "R \<lparr>R = None, Entries = [triangle]\<rparr> = None
   \<and> Closed (last (Entries \<lparr>R = None, Entries = [triangle]\<rparr>))
   \<and> ClosePath \<lparr>R = None, Entries = [triangle]\<rparr> = Inr \<lparr>R = None, Entries = [triangle]\<rparr>"
  by (simp add: ClosePath_def triangle_def)

text \<open>
  C7, amended. On a buffered recorder, ClosePath with no entry at all panics (index
  \<open>-1\<close> is out of range); when the most recent entry is already closed it returns
  normally and leaves the recorder as it was.
\<close>

theorem ClosePath_without_open_entry:
  assumes "R r = None"
  shows "(Entries r = [] \<longrightarrow> ClosePath r = Inl IndexOutOfRange)
       \<and> (Entries r \<noteq> [] \<and> Closed (last (Entries r)) \<longrightarrow> ClosePath r = Inr r)"
proof -
  have "(Entries r)[nat (int (length (Entries r)) - 1) := last (Entries r)\<lparr>Closed := True\<rparr>] = Entries r"
    if "Entries r \<noteq> []" "Closed (last (Entries r))"
  proof -
    have "last (Entries r)\<lparr>Closed := True\<rparr> = Entries r ! nat (int (length (Entries r)) - 1)"
      using that by (simp add: last_index)
    then show ?thesis by (simp only: list_update_id)
  qed
  then show ?thesis
    using assms by (auto simp add: ClosePath_def Let_def last_index simp del: of_nat_diff)
qed

theorem ClosePath_without_open_entry_witness:
  "R buffered = None \<and> Entries buffered = [] \<and> ClosePath buffered = Inl IndexOutOfRange
   \<and> R \<lparr>R = None, Entries = [triangle]\<rparr> = None
   \<and> Entries \<lparr>R = None, Entries = [triangle]\<rparr> \<noteq> []
   \<and> Closed (last (Entries \<lparr>R = None, Entries = [triangle]\<rparr>))
   \<and> ClosePath \<lparr>R = None, Entries = [triangle]\<rparr> = Inr \<lparr>R = None, Entries = [triangle]\<rparr>"
proof -
  have h1: "R buffered = None" by (simp add: buffered_def)
  have h2: "R \<lparr>R = None, Entries = [triangle]\<rparr> = None" by simp
  show ?thesis
    using ClosePath_without_open_entry [OF h1] ClosePath_without_open_entry [OF h2]
    by (simp add: buffered_def triangle_def)
qed

section \<open>MoveTo, LineTo and CubeTo on a buffered recorder\<close>

text \<open>
  C8. On a buffered recorder, a MoveTo issued while the most recent entry \<open>e\<close> is open
  starts no new entry: the MoveTo segment is appended to the path of \<open>e\<close> and \<open>(x, y)\<close>
  is merged into its box by the comparisons of \<open>extend\<close>, which is the min/max merge
  \<open>merge_point\<close> whenever the box of \<open>e\<close> is in order. When there is no entry, or the
  most recent one is closed, a new entry is appended whose box is the single point and
  whose path is the MoveTo segment.
\<close>

theorem MoveTo_entry_rule:
  assumes "R r = None"
  shows "(\<forall>es e. Entries r = es @ [e] \<and> \<not> Closed e \<longrightarrow>
            MoveTo env x y r =
              Inr (r\<lparr>Entries := es @
                [(merge_y y (merge_x x e))\<lparr>Path := Path e @ [\<lparr>Op = moveto, Args = [x, y]\<rparr>]\<rparr>]\<rparr>)
            \<and> (box_ok e \<longrightarrow> merge_y y (merge_x x e) = merge_point x y e))
       \<and> (Entries r = [] \<or> Closed (last (Entries r)) \<longrightarrow>
            MoveTo env x y r =
              Inr (r\<lparr>Entries := Entries r @
                [\<lparr>Closed = False, Path = [\<lparr>Op = moveto, Args = [x, y]\<rparr>],
                  MinX = x, MaxX = x, MinY = y, MaxY = y\<rparr>]\<rparr>))"
  using assms
  by (auto simp add: MoveTo_def extend_path_open2 extend_path_fresh2 merge_is_merge_point)

theorem MoveTo_entry_rule_witness:
  "R \<lparr>R = None, Entries = [triangle, open_triangle]\<rparr> = None
   \<and> \<not> Closed open_triangle \<and> box_ok open_triangle
   \<and> MoveTo exact_env (Fin 7) (Fin (- 1)) \<lparr>R = None, Entries = [triangle, open_triangle]\<rparr> =
       Inr \<lparr>R = None, Entries = [triangle,
         \<lparr>Closed = False,
          Path = [\<lparr>Op = moveto, Args = [Fin 0, Fin 0]\<rparr>, \<lparr>Op = lineto, Args = [Fin 4, Fin 0]\<rparr>,
                  \<lparr>Op = lineto, Args = [Fin 4, Fin 3]\<rparr>, \<lparr>Op = moveto, Args = [Fin 7, Fin (- 1)]\<rparr>],
          MinX = Fin 0, MaxX = Fin 7, MinY = Fin (- 1), MaxY = Fin 3\<rparr>]\<rparr>
   \<and> Closed (last (Entries \<lparr>R = None, Entries = [triangle]\<rparr>))
   \<and> MoveTo exact_env (Fin 7) (Fin (- 1)) \<lparr>R = None, Entries = [triangle]\<rparr> =
       Inr \<lparr>R = None, Entries = [triangle,
         \<lparr>Closed = False, Path = [\<lparr>Op = moveto, Args = [Fin 7, Fin (- 1)]\<rparr>],
          MinX = Fin 7, MaxX = Fin 7, MinY = Fin (- 1), MaxY = Fin (- 1)\<rparr>]\<rparr>
   \<and> MoveTo exact_env (Fin 7) (Fin (- 1)) buffered =
       Inr \<lparr>R = None, Entries = [
         \<lparr>Closed = False, Path = [\<lparr>Op = moveto, Args = [Fin 7, Fin (- 1)]\<rparr>],
          MinX = Fin 7, MaxX = Fin 7, MinY = Fin (- 1), MaxY = Fin (- 1)\<rparr>]\<rparr>"
proof -
  have h1: "R \<lparr>R = None, Entries = [triangle, open_triangle]\<rparr> = None" by simp
  have h2: "R \<lparr>R = None, Entries = [triangle]\<rparr> = None" by simp
  have h3: "R buffered = None" by (simp add: buffered_def)
  have a: "Entries \<lparr>R = None, Entries = [triangle, open_triangle]\<rparr> = [triangle] @ [open_triangle]
           \<and> \<not> Closed open_triangle"
    by (simp add: open_triangle_def)
  show ?thesis
    using MoveTo_entry_rule [OF h1, of exact_env "Fin 7" "Fin (- 1)"] a
      MoveTo_entry_rule [OF h2, of exact_env "Fin 7" "Fin (- 1)"]
      MoveTo_entry_rule [OF h3, of exact_env "Fin 7" "Fin (- 1)"]
    by (simp add: buffered_def triangle_def open_triangle_def box_ok_def merge_point_def
        fmin_def fmax_def)
qed

text \<open>
  C10. On a buffered recorder with no open entry (no entry, or the most recent one
  closed), LineTo and CubeTo return normally: each appends a new open entry whose only
  segment is the LineTo or CubeTo itself (no MoveTo before it). Its box starts as the
  first coordinate pair; for CubeTo the two other pairs are then merged into it.
\<close>

theorem LineTo_CubeTo_start_entry:
  assumes "R r = None" and "Entries r = [] \<or> Closed (last (Entries r))"
  shows "LineTo env x y r =
           Inr (r\<lparr>Entries := Entries r @
             [\<lparr>Closed = False, Path = [\<lparr>Op = lineto, Args = [x, y]\<rparr>],
               MinX = x, MaxX = x, MinY = y, MaxY = y\<rparr>]\<rparr>)
       \<and> CubeTo env a b c d e f r =
           Inr (r\<lparr>Entries := Entries r @
             [merge_point e f (merge_point c d
                \<lparr>Closed = False, Path = [\<lparr>Op = cubeto, Args = [a, b, c, d, e, f]\<rparr>],
                  MinX = a, MaxX = a, MinY = b, MaxY = b\<rparr>)]\<rparr>)"
  using assms
  by (simp add: LineTo_def CubeTo_def extend_path_fresh2 extend_path_fresh6)

theorem LineTo_CubeTo_start_entry_witness:
  "R \<lparr>R = None, Entries = [triangle]\<rparr> = None
   \<and> Closed (last (Entries \<lparr>R = None, Entries = [triangle]\<rparr>))
   \<and> LineTo exact_env (Fin 5) (Fin 6) \<lparr>R = None, Entries = [triangle]\<rparr> =
       Inr \<lparr>R = None, Entries = [triangle,
         \<lparr>Closed = False, Path = [\<lparr>Op = lineto, Args = [Fin 5, Fin 6]\<rparr>],
           MinX = Fin 5, MaxX = Fin 5, MinY = Fin 6, MaxY = Fin 6\<rparr>]\<rparr>
   \<and> CubeTo exact_env (Fin 5) (Fin 6) (Fin 9) (Fin 2) (Fin 3) (Fin 4) \<lparr>R = None, Entries = [triangle]\<rparr> =
       Inr \<lparr>R = None, Entries = [triangle,
         \<lparr>Closed = False,
           Path = [\<lparr>Op = cubeto, Args = [Fin 5, Fin 6, Fin 9, Fin 2, Fin 3, Fin 4]\<rparr>],
           MinX = Fin 3, MaxX = Fin 9, MinY = Fin 2, MaxY = Fin 6\<rparr>]\<rparr>"
proof -
  have h1: "R \<lparr>R = None, Entries = [triangle]\<rparr> = None" by simp
  have h2: "Entries \<lparr>R = None, Entries = [triangle]\<rparr> = []
            \<or> Closed (last (Entries \<lparr>R = None, Entries = [triangle]\<rparr>))"
    by (simp add: triangle_def)
  show ?thesis
    using LineTo_CubeTo_start_entry [OF h1 h2, of exact_env "Fin 5" "Fin 6" "Fin 5" "Fin 6"
        "Fin 9" "Fin 2" "Fin 3" "Fin 4"] h2
    by (simp add: merge_point_def fmin_def fmax_def)
qed

section \<open>Render: helper lemmas\<close>

lemmas example_defs =
  triangle_def open_triangle_def arch_def abandoned_def broken_def far_open_def long_line_def
  triangle_drawn_def arch_drawn_def draw_log_def exact_env_def

lemmas replay_defs =
  well_formed_def violation_def footprint_def local_x_def local_y_def local_cmd_def
  entry_buffer_def offset_def composite_def buffer_fits_def fsub_def go_int_def trunc_def
  wrap64_def

lemmas render_defs =
  Render_def Let_def toX_def toY_def fsub_def go_int_def trunc_def wrap64_def vector_do_def
  vector_NewRasterizer_def vector_Reset_def Operator_defs

lemma replay_append:
  "replay env e (ps @ qs) vr =
     (case replay env e ps vr of Inl err \<Rightarrow> Inl err | Inr vr' \<Rightarrow> replay env e qs vr')"
  by (induction ps arbitrary: vr) (simp_all add: Let_def)

lemma well_formed_local:
  assumes "well_formed p"
  shows "replay env e [p] vr = Inr (vector_do (local_cmd env e p) vr)"
proof -
  from assms consider
      (two) px py where "Args p = [px, py]" "Op p = moveto \<or> Op p = lineto"
    | (six) x1 y1 x2 y2 x3 y3 where "Args p = [x1, y1, x2, y2, x3, y3]" "Op p = cubeto"
    unfolding well_formed_def
    by (auto simp add: length_Suc_conv numeral_2_eq_2 eval_nat_numeral)
  then show ?thesis
  proof cases
    case two
    then show ?thesis
      by (auto simp add: local_cmd_def toX_def toY_def local_x_def local_y_def Operator_defs)
  next
    case six
    then show ?thesis
      by (simp add: local_cmd_def toX_def toY_def local_x_def local_y_def Operator_defs)
  qed
qed

lemma replay_well_formed:
  "list_all well_formed ps \<Longrightarrow>
     replay env e ps vr = Inr (vr\<lparr>vpath := vpath vr @ map (local_cmd env e) ps\<rparr>)"
proof (induction ps arbitrary: vr)
  case Nil
  then show ?case by simp
next
  case (Cons p ps)
  have "replay env e ([p] @ ps) vr = replay env e ps (vector_do (local_cmd env e p) vr)"
    using Cons.prems by (simp only: replay_append) (simp add: well_formed_local del: replay.simps)
  then show ?case
    using Cons by (simp add: vector_do_def del: replay.simps)
qed

lemma not_well_formed_violation:
  "\<not> well_formed p \<Longrightarrow> replay env e (p # ps) vr = Inl (violation p)"
  by (auto simp add: well_formed_def violation_def Let_def)

lemma replay_violation:
  "find (\<lambda>p. \<not> well_formed p) ps = Some p \<Longrightarrow> replay env e ps vr = Inl (violation p)"
proof (induction ps arbitrary: vr)
  case Nil
  then show ?case by simp
next
  case (Cons q qs)
  show ?case
  proof (cases "well_formed q")
    case True
    have "replay env e ([q] @ qs) vr = replay env e qs (vector_do (local_cmd env e q) vr)"
      using True by (simp only: replay_append) (simp add: well_formed_local del: replay.simps)
    then show ?thesis
      using Cons True by (simp del: replay.simps)
  next
    case False
    then show ?thesis
      using Cons.prems by (simp add: not_well_formed_violation del: replay.simps)
  qed
qed

text \<open>The allocation of the converter of an entry succeeds exactly when its buffer fits.\<close>

lemma alloc_fits:
  "buffer_fits env e \<Longrightarrow>
     vector_NewRasterizer env (fst (footprint env e)) (snd (footprint env e))
       = Inr \<lparr>vsize = footprint env e, vpath = []\<rparr>"
  by (auto simp add: buffer_fits_def vector_NewRasterizer_def vector_Reset_def Let_def
      split: prod.splits)

lemma alloc_fails:
  "\<not> buffer_fits env e \<Longrightarrow>
     vector_NewRasterizer env (fst (footprint env e)) (snd (footprint env e))
       = Inl (BufferPanic (wrap64 (fst (footprint env e) * snd (footprint env e))))"
  by (auto simp add: buffer_fits_def vector_NewRasterizer_def vector_Reset_def Let_def
      split: prod.splits)

lemma footprint_fst: "go_int env (fsub env (fadd env (Fin 2) (MaxX e)) (MinX e)) = fst (footprint env e)"
  by (simp add: footprint_def)

lemma footprint_snd: "go_int env (fsub env (fadd env (Fin 2) (MaxY e)) (MinY e)) = snd (footprint env e)"
  by (simp add: footprint_def)

text \<open>The loop, one entry at a time.\<close>

lemma render_Cons:
  "render_entries env dr x y col (e # es) im =
     (case render_entries env dr x y col [e] im of
        Inl bad \<Rightarrow> Inl bad
      | Inr im' \<Rightarrow> render_entries env dr x y col es im')"
  by (simp add: Let_def split: sum.splits)

lemma render_append:
  "render_entries env dr x y col (pre @ post) im =
     (case render_entries env dr x y col pre im of
        Inl bad \<Rightarrow> Inl bad
      | Inr im' \<Rightarrow> render_entries env dr x y col post im')"
proof (induction pre arbitrary: im)
  case Nil
  then show ?case by simp
next
  case (Cons e pre)
  have "render_entries env dr x y col (e # (pre @ post)) im =
     (case render_entries env dr x y col [e] im of
        Inl bad \<Rightarrow> Inl bad
      | Inr im' \<Rightarrow> render_entries env dr x y col (pre @ post) im')"
    by (rule render_Cons)
  also have "\<dots> =
     (case render_entries env dr x y col [e] im of
        Inl bad \<Rightarrow> Inl bad
      | Inr im' \<Rightarrow>
          (case render_entries env dr x y col pre im' of
             Inl bad \<Rightarrow> Inl bad
           | Inr im'' \<Rightarrow> render_entries env dr x y col post im''))"
    by (simp only: Cons.IH)
  also have "\<dots> =
     (case render_entries env dr x y col (e # pre) im of
        Inl bad \<Rightarrow> Inl bad
      | Inr im' \<Rightarrow> render_entries env dr x y col post im')"
    by (simp only: render_Cons [of env dr x y col e pre]) (simp split: sum.splits)
  finally show ?case by simp
qed

lemma render_one_no_buffer:
  "\<not> buffer_fits env e \<Longrightarrow>
     render_entries env dr x y col [e] im
       = Inl (BufferPanic (wrap64 (fst (footprint env e) * snd (footprint env e))), im)"
  by (simp add: Let_def footprint_fst footprint_snd alloc_fails)

lemma render_one_skip:
  "buffer_fits env e \<Longrightarrow> \<not> Closed e \<Longrightarrow> render_entries env dr x y col [e] im = Inr im"
  by (simp add: Let_def footprint_fst footprint_snd alloc_fits)

lemma render_one_closed:
  assumes "buffer_fits env e" and "Closed e" and "list_all well_formed (Path e)"
  shows "render_entries env dr x y col [e] im = Inr (composite env dr x y col im e)"
proof -
  have "vector_do VClosePath
          (\<lparr>vsize = footprint env e, vpath = []\<rparr>
             \<lparr>vpath := vpath \<lparr>vsize = footprint env e, vpath = []\<rparr> @ map (local_cmd env e) (Path e)\<rparr>)
          = entry_buffer env e"
    by (simp add: vector_do_def entry_buffer_def)
  then show ?thesis
    using assms
    by (simp add: Let_def footprint_fst footprint_snd alloc_fits replay_well_formed
        composite_def offset_def split: prod.splits)
qed

lemma render_one_violation:
  assumes "buffer_fits env e" and "Closed e" and "find (\<lambda>p. \<not> well_formed p) (Path e) = Some p"
  shows "render_entries env dr x y col [e] im = Inl (violation p, im)"
  using assms by (simp add: Let_def footprint_fst footprint_snd alloc_fits replay_violation)

lemma render_one_abort:
  assumes "Closed e" and "find (\<lambda>p. \<not> well_formed p) (Path e) = Some p"
  shows "\<exists>err. render_entries env dr x y col [e] im = Inl (err, im)"
proof (cases "buffer_fits env e")
  case True
  have "render_entries env dr x y col [e] im = Inl (violation p, im)"
    by (rule render_one_violation [OF True assms])
  then show ?thesis by blast
next
  case False
  have "render_entries env dr x y col [e] im
       = Inl (BufferPanic (wrap64 (fst (footprint env e) * snd (footprint env e))), im)"
    by (rule render_one_no_buffer [OF False])
  then show ?thesis by blast
qed

lemma render_well_formed:
  "list_all (buffer_fits env) es \<Longrightarrow>
   \<forall>e \<in> set es. Closed e \<longrightarrow> list_all well_formed (Path e) \<Longrightarrow>
     render_entries env dr x y col es im =
       Inr (foldl (composite env dr x y col) im (filter Closed es))"
proof (induction es arbitrary: im)
  case Nil
  then show ?case by simp
next
  case (Cons e es)
  have fits: "buffer_fits env e" using Cons.prems(1) by simp
  have IH: "\<And>im. render_entries env dr x y col es im =
       Inr (foldl (composite env dr x y col) im (filter Closed es))"
    using Cons by simp
  show ?case
  proof (cases "Closed e")
    case True
    then have "list_all well_formed (Path e)" using Cons.prems(2) by simp
    then have one: "render_entries env dr x y col [e] im = Inr (composite env dr x y col im e)"
      using fits True by (intro render_one_closed)
    show ?thesis
      using True IH by (simp only: render_Cons [of env dr x y col e es] one) simp
  next
    case False
    have one: "render_entries env dr x y col [e] im = Inr im"
      by (rule render_one_skip [OF fits False])
    show ?thesis
      using False IH by (simp only: render_Cons [of env dr x y col e es] one) simp
  qed
qed

section \<open>The recorder keeps its segments well formed\<close>

text \<open>The calls of the recorder keep the invariant, so Render does not panic on a recorder
  that only these calls have written to.\<close>

lemma extend_loop_keeps:
  "extend_loop as e = Inr e' \<Longrightarrow> Path e' = Path e \<and> Closed e' = Closed e"
  by (induction as e rule: extend_loop.induct) simp_all

lemma last_index_less: "es \<noteq> [] \<Longrightarrow> nat (int (length es) - 1) < length es"
  by (cases es) simp_all

lemma list_all_update:
  "list_all P xs \<Longrightarrow> P x \<Longrightarrow> list_all P (xs[n := x])"
  by (induction xs arbitrary: n) (auto split: nat.splits)

lemma extend_from_well_formed:
  assumes "entries_well_formed r" and "n < length (Entries r)"
    and "well_formed \<lparr>Op = op, Args = args\<rparr>"
    and "extend_from op args i n r = Inr r'"
  shows "entries_well_formed r'"
proof -
  obtain e where e: "extend_loop (drop i args) (Entries r ! n) = Inr e"
      and r': "r' = r\<lparr>Entries := (Entries r)[n := e\<lparr>Path := Path e @ [\<lparr>Op = op, Args = args\<rparr>]\<rparr>]\<rparr>"
    using assms(4) by (auto simp add: extend_from_def split: sum.splits)
  have "list_all well_formed (Path (Entries r ! n))"
    using assms(1,2) by (simp add: entries_well_formed_def list_all_length)
  then have "list_all well_formed (Path e @ [\<lparr>Op = op, Args = args\<rparr>])"
    using extend_loop_keeps [OF e] assms(3) by simp
  then show ?thesis
    using assms(1) unfolding r' entries_well_formed_def by (simp add: list_all_update)
qed

lemma extend_path_well_formed:
  assumes "entries_well_formed r" and "well_formed \<lparr>Op = op, Args = args\<rparr>"
    and "extend_path op args r = Inr r'"
  shows "entries_well_formed r'"
proof (cases "R r \<noteq> None")
  case True
  then show ?thesis using assms by (simp add: extend_path_def)
next
  case False
  let ?n = "int (length (Entries r)) - 1"
  show ?thesis
  proof (cases "?n < 0 \<or> Closed (Entries r ! nat ?n)")
    case True
    have "2 \<le> length args"
      using assms(2) by (auto simp add: well_formed_def)
    then obtain a0 a1 rest where args: "args = a0 # a1 # rest"
      by (auto simp add: numeral_2_eq_2 Suc_le_length_iff)
    let ?r1 = "r\<lparr>Entries := Entries r @
                [\<lparr>Closed = False, Path = [], MinX = a0, MaxX = a0, MinY = a1, MaxY = a1\<rparr>]\<rparr>"
    have 1: "extend_from op args 2 (nat (?n + 1)) ?r1 = Inr r'"
      using assms(3) False True args by (simp add: extend_path_def Let_def del: of_nat_diff)
    have 2: "entries_well_formed ?r1"
      using assms(1) by (simp add: entries_well_formed_def)
    have 3: "nat (?n + 1) < length (Entries ?r1)" by simp
    from extend_from_well_formed [OF 2 3 assms(2) 1] show ?thesis .
  next
    case open_entry: False
    have 1: "extend_from op args 0 (nat ?n) r = Inr r'"
      using assms(3) False open_entry by (simp add: extend_path_def Let_def del: of_nat_diff)
    have 3: "nat ?n < length (Entries r)"
      using open_entry by (intro last_index_less) auto
    from extend_from_well_formed [OF assms(1) 3 assms(2) 1] show ?thesis .
  qed
qed

lemma forward_well_formed [simp]: "entries_well_formed (forward c r) = entries_well_formed r"
  by (simp add: forward_def entries_well_formed_def split: option.splits)

lemma do_call_well_formed:
  assumes "entries_well_formed r" and "do_call env c r = Inr r'"
  shows "entries_well_formed r'"
proof -
  obtain r1 where "extend_path (Op (call_segment c)) (Args (call_segment c)) r = Inr r1"
      and "entries_well_formed r' = entries_well_formed r1"
    using assms(2)
    by (cases c) (auto simp add: MoveTo_def LineTo_def CubeTo_def split: sum.splits)
  moreover have "well_formed \<lparr>Op = Op (call_segment c), Args = Args (call_segment c)\<rparr>"
    using call_segment_well_formed [of c] by (simp add: well_formed_def)
  ultimately show ?thesis
    using extend_path_well_formed [OF assms(1)] by blast
qed

lemma do_calls_well_formed:
  "entries_well_formed r \<Longrightarrow> do_calls env cs r = Inr r' \<Longrightarrow> entries_well_formed r'"
proof (induction cs arbitrary: r)
  case Nil
  then show ?case by simp
next
  case (Cons c cs)
  then show ?case
    by (auto split: sum.splits dest: do_call_well_formed)
qed

lemma ClosePath_well_formed:
  assumes "entries_well_formed r" and "ClosePath r = Inr r'"
  shows "entries_well_formed r'"
proof (cases "R r")
  case None
  let ?n = "nat (int (length (Entries r)) - 1)"
  have n: "?n < length (Entries r)" and
    r': "r' = r\<lparr>Entries := (Entries r)[?n := (Entries r ! ?n)\<lparr>Closed := True\<rparr>]\<rparr>"
    using assms(2) None
    by (auto simp add: ClosePath_def Let_def last_index_less split: if_splits simp del: of_nat_diff)
  have "list_all well_formed (Path ((Entries r ! ?n)\<lparr>Closed := True\<rparr>))"
    using assms(1) n by (simp add: entries_well_formed_def list_all_length)
  then show ?thesis
    using assms(1) unfolding r' entries_well_formed_def by (simp add: list_all_update)
next
  case (Some z)
  then show ?thesis
    using assms by (auto simp add: ClosePath_def entries_well_formed_def)
qed

lemma Render_never_panics_on_recorded:
  "entries_well_formed r \<Longrightarrow> list_all (buffer_fits env) (Entries r) \<Longrightarrow>
     Render env dr im x y col r =
       Inr (foldl (composite env dr x y col) im (filter Closed (Entries r)))"
  by (simp add: Render_def render_well_formed entries_well_formed_def list_all_iff)

section \<open>Render: replay and compositing\<close>



text \<open>
  The sizes and the rectangle of the entry left by MoveTo(0,0), LineTo(1e30,0),
  ClosePath, rendered at offset \<open>(0, 0)\<close> on the example machine: the width has no
  \<^verbatim>\<open>int\<close> value, and the far corner of the rectangle wraps around.
\<close>

lemma long_line_sizes:
  "footprint exact_env long_line = (- (2 ^ 63), 2)"
  "offset exact_env (Fin 0) (Fin 0) long_line = (- 1, - 1)"
  "wrap64 (- 1 + - (2 ^ 63)) = 2 ^ 63 - 1"
  "local_x exact_env long_line (Fin (10 ^ 30)) = Fin (10 ^ 30 + 1)"
  by (simp_all add: example_defs replay_defs)

text \<open>An open entry is skipped when its buffer can be allocated, whatever its segments.\<close>

lemma Render_skips_open_entry_that_fits:
  assumes "\<not> Closed e" and "buffer_fits env e"
  shows "Render env dr im x y col (r\<lparr>Entries := pre @ e # post\<rparr>)
           = Render env dr im x y col (r\<lparr>Entries := pre @ post\<rparr>)"
proof -
  have one: "render_entries env dr x y col [e] im' = Inr im'" for im'
    by (rule render_one_skip [OF assms(2,1)])
  have "render_entries env dr x y col (e # post) im' = render_entries env dr x y col post im'" for im'
    by (simp only: render_Cons [of env dr x y col e post] one) simp
  then have "render_entries env dr x y col (pre @ e # post) im = render_entries env dr x y col (pre @ post) im"
    by (simp only: render_append [of _ _ _ _ _ pre])
  then show ?thesis
    by (simp add: Render_def)
qed

text \<open>
  C4 (an entry that is not closed is skipped by Render and never reported as an error)
  does not hold of the code: Render allocates the converter of an entry before it tests
  \<^verbatim>\<open>e.Closed\<close>, though it means to skip the entry (\<^verbatim>\<open>continue // empty shape\<close>). On the
  recorder left by the closed triangle followed by MoveTo(0,0), LineTo(1e10,1e10), whose
  last entry is open, Render composites the triangle and then panics in the allocation
  for the open entry (a buffer of \<open>10000000002 * 10000000002\<close> samples, as a 64-bit
  product); without the open entry it returns normally.
\<close>

theorem Render_panics_on_open_entry:
  "\<not> Closed far_open
   \<and> Render exact_env draw_log [] (Fin 10) (Fin 20) ''black'' \<lparr>R = None, Entries = [triangle, far_open]\<rparr>
       = Inl (BufferPanic 7766279671452241924, [triangle_drawn])
   \<and> Render exact_env draw_log [] (Fin 10) (Fin 20) ''black'' \<lparr>R = None, Entries = [triangle]\<rparr>
       = Inr [triangle_drawn]"
  by (simp add: render_defs example_defs)

text \<open>
  C5. When Render reaches a closed entry \<open>e\<close> holding a segment that breaks the rule
  (\<open>p\<close> is the first one: an operator other than move, line and cube, the sentinel
  included, or an argument count other than 2 for move and line and 6 for cube), it
  panics: with \<open>violation p\<close> when the buffer of \<open>e\<close> can be allocated, in the allocation
  otherwise. The image is then as the entries before \<open>e\<close> left it: neither \<open>e\<close> nor any
  entry after it is composited.
\<close>

theorem Render_aborts_on_violation:
  assumes "Closed e" and "find (\<lambda>p. \<not> well_formed p) (Path e) = Some p"
    and "Render env dr im x y col (r\<lparr>Entries := pre\<rparr>) = Inr im'"
  shows "(\<exists>err. Render env dr im x y col (r\<lparr>Entries := pre @ e # post\<rparr>) = Inl (err, im'))
       \<and> (buffer_fits env e \<longrightarrow>
            Render env dr im x y col (r\<lparr>Entries := pre @ e # post\<rparr>) = Inl (violation p, im'))"
proof -
  have pre: "render_entries env dr x y col pre im = Inr im'"
    using assms(3) by (simp add: Render_def)
  have split: "render_entries env dr x y col (pre @ e # post) im
      = (case render_entries env dr x y col [e] im' of
           Inl bad \<Rightarrow> Inl bad
         | Inr im'' \<Rightarrow> render_entries env dr x y col post im'')"
    by (simp only: render_append [of _ _ _ _ _ pre] pre render_Cons [of env dr x y col e post]) simp
  have "\<exists>err. render_entries env dr x y col [e] im' = Inl (err, im')"
    by (rule render_one_abort [OF assms(1,2)])
  then obtain err where err: "render_entries env dr x y col [e] im' = Inl (err, im')"
    by blast
  have 1: "\<exists>err. Render env dr im x y col (r\<lparr>Entries := pre @ e # post\<rparr>) = Inl (err, im')"
    using split err by (simp add: Render_def)
  have 2: "Render env dr im x y col (r\<lparr>Entries := pre @ e # post\<rparr>) = Inl (violation p, im')"
    if "buffer_fits env e"
  proof -
    have "render_entries env dr x y col [e] im' = Inl (violation p, im')"
      by (rule render_one_violation [OF that assms(1,2)])
    then show ?thesis using split by (simp add: Render_def)
  qed
  from 1 2 show ?thesis by blast
qed

theorem Render_aborts_on_violation_witness:
  "Closed broken
   \<and> find (\<lambda>p. \<not> well_formed p) (Path broken) = Some \<lparr>Op = bogus, Args = [Fin 1, Fin 2]\<rparr>
   \<and> Render exact_env draw_log [] (Fin 10) (Fin 20) ''black'' \<lparr>R = None, Entries = [triangle]\<rparr>
       = Inr [triangle_drawn]
   \<and> buffer_fits exact_env broken
   \<and> Render exact_env draw_log [] (Fin 10) (Fin 20) ''black''
        \<lparr>R = None, Entries = [triangle, broken, arch]\<rparr>
       = Inl (UnsupportedOp bogus, [triangle_drawn])"
proof -
  have h1: "Closed broken" by (simp add: broken_def)
  have h2: "find (\<lambda>p. \<not> well_formed p) (Path broken) = Some \<lparr>Op = bogus, Args = [Fin 1, Fin 2]\<rparr>"
    by (simp add: broken_def well_formed_def Operator_defs)
  have h3: "Render exact_env draw_log [] (Fin 10) (Fin 20) ''black''
              (\<lparr>R = None, Entries = []\<rparr>\<lparr>Entries := [triangle]\<rparr>) = Inr [triangle_drawn]"
    by (simp add: render_defs example_defs)
  have h4: "buffer_fits exact_env broken"
    by (simp add: example_defs replay_defs)
  show ?thesis
    using h1 h2 h3 h4 Render_aborts_on_violation [OF h1 h2 h3, where post = "[arch]"]
    by (simp add: violation_def Operator_defs)
qed

end
